theory Spec2Isabelle
  imports Main
begin

section \<open>Python strings\<close>

text \<open>
  Text is a list of characters. The helpers below are the string methods of Python that
  the plugin calls: \<open>str.strip\<close>, \<open>str.startswith\<close>, \<open>str.endswith\<close>, the
  substring test \<open>in\<close>, \<open>str.join\<close> and \<open>str.split\<close> on a one-character separator.
\<close>

definition isspace :: "char \<Rightarrow> bool" where
  \<comment> \<open>\<open>str.isspace\<close> on the code points below 256: TAB, LF, VT, FF, CR, FS, GS, RS, US,
      SPACE, NEL and NBSP.\<close>
  "isspace c = (of_char c \<in> set [9, 10, 11, 12, 13, 28, 29, 30, 31, 32, 133, 160 :: nat])"

definition lstrip :: "string \<Rightarrow> string" where
  "lstrip s = dropWhile isspace s"

definition rstrip :: "string \<Rightarrow> string" where
  "rstrip s = rev (dropWhile isspace (rev s))"

definition strip :: "string \<Rightarrow> string" where
  "strip s = rstrip (lstrip s)"

definition startswith :: "string \<Rightarrow> string \<Rightarrow> bool" where
  "startswith s p = (take (length p) s = p)"

definition endswith :: "string \<Rightarrow> string \<Rightarrow> bool" where
  "endswith s p = (length p \<le> length s \<and> drop (length s - length p) s = p)"

fun str_contains :: "string \<Rightarrow> string \<Rightarrow> bool" where
  \<comment> \<open>\<open>sub in s\<close>\<close>
  "str_contains sub [] = (sub = [])"
| "str_contains sub (c # cs) = (startswith (c # cs) sub \<or> str_contains sub cs)"

fun join :: "string \<Rightarrow> string list \<Rightarrow> string" where
  "join sep [] = []"
| "join sep [x] = x"
| "join sep (x # y # ys) = x @ sep @ join sep (y # ys)"

fun split_acc :: "char \<Rightarrow> string \<Rightarrow> string \<Rightarrow> string list" where
  "split_acc sep acc [] = [rev acc]"
| "split_acc sep acc (c # cs) =
     (if c = sep then rev acc # split_acc sep [] cs else split_acc sep (c # acc) cs)"

definition split :: "char \<Rightarrow> string \<Rightarrow> string list" where
  \<comment> \<open>\<open>s.split(sep)\<close> for a separator of one character; the empty text gives one empty
      part.\<close>
  "split sep s = split_acc sep [] s"

definition truthy :: "string option \<Rightarrow> bool" where
  \<comment> \<open>Python's truth value of a text that may be \<open>None\<close>.\<close>
  "truthy v = (case v of None \<Rightarrow> False | Some s \<Rightarrow> s \<noteq> [])"

definition str_of :: "string option \<Rightarrow> string" where
  \<comment> \<open>\<open>"%s" % v\<close>: \<open>None\<close> prints as the text None.\<close>
  "str_of v = (case v of None \<Rightarrow> ''None'' | Some s \<Rightarrow> s)"

definition quoted :: "string \<Rightarrow> string" where
  \<comment> \<open>a word between two apostrophes, as the error messages print option names\<close>
  "quoted s = CHR 0x27 # s @ [CHR 0x27]"

section \<open>The cliconf plugin (plugins/cliconf/aos.py)\<close>

datatype error =
    ValueError string
  | AnsibleConnectionFailure string

record device_operations =
  supports_diff_replace :: bool
  supports_commit :: bool
  supports_rollback :: bool
  supports_defaults :: bool
  supports_onbox_diff :: bool
  supports_commit_comment :: bool
  supports_multiline_delimiter :: bool
  supports_diff_match :: bool
  supports_diff_ignore_lines :: bool
  supports_generate_diff :: bool
  supports_replace :: bool

definition get_device_operations :: device_operations where
  "get_device_operations =
     \<lparr> supports_diff_replace = False,
       supports_commit = False,
       supports_rollback = False,
       supports_defaults = False,
       supports_onbox_diff = False,
       supports_commit_comment = False,
       supports_multiline_delimiter = False,
       supports_diff_match = False,
       supports_diff_ignore_lines = False,
       supports_generate_diff = False,
       supports_replace = False \<rparr>"

record option_values =
  ov_format :: "string list"
  ov_diff_match :: "string list"
  ov_diff_replace :: "string list"
  ov_output :: "string list"

definition get_option_values :: option_values where
  "get_option_values =
     \<lparr> ov_format = [''text'', ''json''],
       ov_diff_match = [''line'', ''strict'', ''exact'', ''none''],
       ov_diff_replace = [''line'', ''block'', ''config''],
       ov_output = [''text'', ''json''] \<rparr>"

definition get_command_with_output :: "string \<Rightarrow> string \<Rightarrow> string option \<Rightarrow> error + string" where
  \<comment> \<open>\<open>Cliconf._get_command_with_output(command, output, version)\<close>\<close>
  "get_command_with_output cmd_text outp ver =
     (if outp \<notin> set (ov_output get_option_values) then
        Inl (ValueError (quoted ''output'' @ '' value '' @ outp @ '' is invalid. Valid values are ''
                         @ join '','' (ov_output get_option_values)))
      else
        let cmd = (if outp = ''json'' \<and> \<not> endswith cmd_text ''| json''
                   then cmd_text @ '' | json'' else cmd_text)
        in if ver \<noteq> Some ''latest'' \<and> str_contains ''| json'' cmd
           then Inr (cmd @ '' version '' @ str_of ver)
           else Inr cmd)"

subsection \<open>Commands and the transport\<close>

text \<open>
  A command of a batch is a dictionary with the keys below; an absent key reads as
  \<open>None\<close>. \<open>send_command\<close> of the base class is the transport: it is not part of the
  plugin, so it is a parameter \<open>tr\<close> that takes the keyword arguments and the device and
  gives back the reply text (after \<open>to_text\<close>) or the text of an
  \<open>AnsibleConnectionFailure\<close>, and the device after the exchange. The connection keeps
  the list of the requests that reached the transport.
\<close>

record cmd =
  command :: string
  "output" :: "string option"
  version :: "string option"
  prompt :: "string list option"
  answer :: "string list option"
  newline :: bool
  sendonly :: bool
  check_all :: bool

definition bare :: "string \<Rightarrow> cmd" where
  \<comment> \<open>\<open>{"command": text}\<close>, the other arguments at the defaults of \<open>send_command\<close>\<close>
  "bare s = \<lparr> command = s, output = None, version = None, prompt = None, answer = None,
              newline = True, sendonly = False, check_all = False \<rparr>"

datatype cmd_spec = Bare string | Mapping cmd

type_synonym 'd transport = "cmd \<Rightarrow> 'd \<Rightarrow> (string + string) \<times> 'd"

record 'd conn =
  device :: 'd
  sent :: "cmd list"

definition send_command :: "'d transport \<Rightarrow> cmd \<Rightarrow> 'd conn \<Rightarrow> (error + string) \<times> 'd conn" where
  "send_command tr req c =
     (case tr req (device c) of
        (reply, d') \<Rightarrow>
          (case reply of Inl err \<Rightarrow> Inl (AnsibleConnectionFailure err) | Inr out \<Rightarrow> Inr out,
           \<lparr> device = d', sent = sent c @ [req] \<rparr>))"

definition scripted :: "(string + string) list transport" where
  \<comment> \<open>A transport stub for concrete runs: the device is the list of replies still to
      give, one per request; an exhausted script answers with the empty text.\<close>
  "scripted req replies = (case replies of [] \<Rightarrow> (Inr [], []) | r # rs \<Rightarrow> (r, rs))"

definition no_json :: "string \<Rightarrow> unit option" where
  \<comment> \<open>A JSON parser stub for concrete runs: no reply is JSON.\<close>
  "no_json s = None"

definition fresh :: "'d \<Rightarrow> 'd conn" where
  "fresh d = \<lparr> device = d, sent = [] \<rparr>"

subsection \<open>get_config\<close>

datatype flags_arg = NoFlags | FlagText string | FlagList "string list"

definition to_list :: "flags_arg \<Rightarrow> string list" where
  \<comment> \<open>\<open>to_list\<close> of the common utilities: \<open>None\<close> is no element, a lone value one.\<close>
  "to_list f = (case f of NoFlags \<Rightarrow> [] | FlagText s \<Rightarrow> [s] | FlagList xs \<Rightarrow> xs)"

definition lookup :: "string \<Rightarrow> string option" where
  "lookup source =
     (if source = ''running'' then Some ''show configuration snapshot''
      else if source = ''startup'' then Some ''cat working/vcsetup.cfg''
      else None)"

definition Cliconf_get_config ::
  "'d transport \<Rightarrow> string \<Rightarrow> flags_arg \<Rightarrow> string \<Rightarrow> 'd conn \<Rightarrow> (error + string) \<times> 'd conn" where
  \<comment> \<open>\<open>Cliconf.get_config(source, flags, format)\<close>\<close>
  "Cliconf_get_config tr source flags fmt c =
     (if fmt \<notin> set (ov_format get_option_values) then
        (Inl (ValueError (quoted ''format'' @ '' value '' @ fmt @ '' is invalid. Valid values are ''
                          @ join '','' (ov_format get_option_values))), c)
      else
        case lookup source of
          None \<Rightarrow>
            (Inl (ValueError (''fetching configuration from '' @ source @ '' is not supported'')), c)
        | Some base \<Rightarrow>
            let cmd0 = base @ '' '';
                cmd1 = (if fmt \<noteq> [] \<and> fmt \<noteq> ''text'' then cmd0 @ ''| '' @ fmt @ '' '' else cmd0);
                cmd2 = cmd1 @ join '' '' (to_list flags);
                cmd3 = strip cmd2
            in send_command tr (bare cmd3) c)"

subsection \<open>run_commands\<close>

datatype 'j response = Text string | Json 'j

definition decode :: "(string \<Rightarrow> 'j option) \<Rightarrow> string \<Rightarrow> 'j response" where
  \<comment> \<open>\<open>json.loads(out)\<close>, and on \<open>ValueError\<close> \<open>out.strip()\<close>; the JSON parser is the
      parameter \<open>loads\<close>.\<close>
  "decode loads out = (case loads out of Some j \<Rightarrow> Json j | None \<Rightarrow> Text (strip out))"

definition prepare :: "cmd_spec \<Rightarrow> error + cmd" where
  \<comment> \<open>the body of the loop before the send: the dictionary of the command, \<open>output\<close>
      and \<open>version\<close> popped from it, and the command text rewritten when \<open>output\<close> is
      given\<close>
  "prepare x =
     (let cmd0 = (case x of Bare s \<Rightarrow> bare s | Mapping m \<Rightarrow> m);
          outp = output cmd0;
          ver = version cmd0;
          cmd1 = cmd0\<lparr> output := None, version := None \<rparr>
      in if truthy outp
         then (case get_command_with_output (command cmd1) (the outp) ver of
                 Inl e \<Rightarrow> Inl e
               | Inr s \<Rightarrow> Inr (cmd1\<lparr> command := s \<rparr>))
         else Inr cmd1)"

fun run_commands_loop ::
  "'d transport \<Rightarrow> (string \<Rightarrow> 'j option) \<Rightarrow> bool \<Rightarrow> cmd_spec list \<Rightarrow> 'j response list \<Rightarrow> 'd conn
     \<Rightarrow> (error + 'j response list) \<times> 'd conn" where
  "run_commands_loop tr loads check_rc [] responses c = (Inr responses, c)"
| "run_commands_loop tr loads check_rc (x # xs) responses c =
     (case prepare x of
        Inl e \<Rightarrow> (Inl e, c)
      | Inr req \<Rightarrow>
          (case send_command tr req c of
             (Inl e, c') \<Rightarrow>
               if check_rc then (Inl e, c')
               else (case e of
                       AnsibleConnectionFailure err \<Rightarrow>
                         run_commands_loop tr loads check_rc xs (responses @ [decode loads err]) c'
                     | ValueError m \<Rightarrow> (Inl e, c'))
           | (Inr out, c') \<Rightarrow>
               run_commands_loop tr loads check_rc xs (responses @ [decode loads out]) c'))"

definition Cliconf_run_commands ::
  "'d transport \<Rightarrow> (string \<Rightarrow> 'j option) \<Rightarrow> cmd_spec list option \<Rightarrow> bool \<Rightarrow> 'd conn
     \<Rightarrow> (error + 'j response list) \<times> 'd conn" where
  \<comment> \<open>\<open>Cliconf.run_commands(commands, check_rc)\<close>. The reply is a text after \<open>to_text\<close>
      (which prints \<open>None\<close> as a text too), so the test \<open>out is not None\<close> always holds.\<close>
  "Cliconf_run_commands tr loads commands check_rc c =
     (case commands of
        None \<Rightarrow> (Inl (ValueError (quoted ''commands'' @ '' value is required'')), c)
      | Some cmds \<Rightarrow> run_commands_loop tr loads check_rc cmds [] c)"

subsection \<open>get_diff\<close>

text \<open>
  \<open>NetworkConfig\<close> and \<open>dumps\<close> belong to the host framework. \<open>get_diff\<close> reaches them
  through three calls, the fields of the record below: loading the candidate (which may be
  \<open>None\<close>) into its items, \<open>difference\<close> of the candidate's items against a running
  configuration built with the ignored lines, under a path, a match and a replace policy,
  and \<open>dumps\<close> of items as commands.
\<close>

record 'i netcfg =
  nc_load :: "string option \<Rightarrow> 'i list"
  nc_difference :: "'i list \<Rightarrow> string \<Rightarrow> string list option \<Rightarrow> string list option \<Rightarrow> string \<Rightarrow> string \<Rightarrow> 'i list"
  nc_dumps :: "'i list \<Rightarrow> string"

definition get_diff ::
  "'i netcfg \<Rightarrow> string option \<Rightarrow> string option \<Rightarrow> string \<Rightarrow> string list option \<Rightarrow> string list option
     \<Rightarrow> string \<Rightarrow> error + string" where
  \<comment> \<open>\<open>Cliconf.get_diff(candidate, running, diff_match, diff_ignore_lines, path,
      diff_replace)\<close>; the result is the entry \<open>config_diff\<close> of the dictionary returned.\<close>
  "get_diff nc candidate running diff_match diff_ignore_lines path diff_replace =
     (if candidate = None \<and> supports_generate_diff get_device_operations then
        Inl (ValueError ''candidate configuration is required to generate diff'')
      else if diff_match \<notin> set (ov_diff_match get_option_values) then
        Inl (ValueError (quoted ''match'' @ '' value '' @ diff_match @ '' in invalid, valid values are ''
                         @ join '', '' (ov_diff_match get_option_values)))
      else if diff_replace \<notin> set (ov_diff_replace get_option_values) then
        Inl (ValueError (quoted ''replace'' @ '' value '' @ diff_replace @ '' in invalid, valid values are ''
                         @ join '', '' (ov_diff_replace get_option_values)))
      else
        let candidate_items = nc_load nc candidate;
            configdiffobjs =
              (if truthy running \<and> diff_match \<noteq> ''none'' \<and> diff_replace \<noteq> ''config''
               then nc_difference nc candidate_items (the running) diff_ignore_lines path
                      diff_match diff_replace
               else candidate_items)
        in Inr (if configdiffobjs \<noteq> [] then nc_dumps nc configdiffobjs else []))"

definition text_lines :: "string \<Rightarrow> string list" where
  "text_lines s = filter (\<lambda>l. l \<noteq> []) (map strip (split CHR 0x0A s))"

definition flat_netcfg :: "string netcfg" where
  \<comment> \<open>A stand-in for the framework's configuration classes on concrete inputs: an item is
      a non-blank line without its indentation, an absent candidate loads as the text
      None (as \<open>to_native\<close> prints it), the difference keeps the candidate lines that the
      running configuration lacks, and \<open>dumps\<close> joins the lines.\<close>
  "flat_netcfg =
     \<lparr> nc_load = (\<lambda>cand. text_lines (str_of cand)),
       nc_difference = (\<lambda>items running ign path m r. filter (\<lambda>l. l \<notin> set (text_lines running)) items),
       nc_dumps = join [CHR 0x0A] \<rparr>"

section \<open>The module side of the connection (plugins/module_utils/network/aos/aos.py)\<close>

datatype failure =
    FailJson string "string list option"
  | FailedConditionalError string
  | Uncaught error
  | UnboundLocalError

definition err_text :: "error \<Rightarrow> string" where
  "err_text e = (case e of ValueError m \<Rightarrow> m | AnsibleConnectionFailure m \<Rightarrow> m)"

record 'd cli =
  device_configs :: "string \<rightharpoonup> string"
  connection :: "'d conn"

definition Cli_get_config ::
  "'d transport \<Rightarrow> string list option \<Rightarrow> 'd cli \<Rightarrow> (failure + string) \<times> 'd cli" where
  \<comment> \<open>\<open>Cli.get_config(flags)\<close>: the running configuration, from the cache or from the
      device; a failure of the call ends the module with \<open>fail_json\<close>.\<close>
  "Cli_get_config tr flags st =
     (let fl = (case flags of None \<Rightarrow> [] | Some f \<Rightarrow> f);
          cmd = strip (''show configuration snapshot '' @ join '' '' fl)
      in case device_configs st cmd of
           Some cfg \<Rightarrow> (Inr cfg, st)
         | None \<Rightarrow>
             (case Cliconf_get_config tr ''running'' (FlagList fl) ''text'' (connection st) of
                (Inl e, c') \<Rightarrow> (Inl (FailJson (err_text e) None), st\<lparr> connection := c' \<rparr>)
              | (Inr out, c') \<Rightarrow>
                  let cfg = strip out
                  in (Inr cfg, st\<lparr> connection := c', device_configs := (device_configs st)(cmd \<mapsto> cfg) \<rparr>)))"

section \<open>The command module (plugins/modules/aos_command.py)\<close>

subsection \<open>parse_commands\<close>

definition check_mode_warning :: "string \<Rightarrow> string" where
  "check_mode_warning c =
     ''Only show commands are supported when using check mode, not executing '' @ c"

fun drop_non_show :: "cmd list \<Rightarrow> cmd list \<Rightarrow> string list \<Rightarrow> cmd list \<times> string list" where
  \<comment> \<open>the loop over the copy \<open>list(commands)\<close>: first argument the items still to visit,
      then the list \<open>commands\<close> being edited and the warnings so far\<close>
  "drop_non_show [] commands warnings = (commands, warnings)"
| "drop_non_show (item # rest) commands warnings =
     (if \<not> startswith (command item) ''show''
      then drop_non_show rest (remove1 item commands) (warnings @ [check_mode_warning (command item)])
      else drop_non_show rest commands warnings)"

definition parse_commands :: "bool \<Rightarrow> cmd list \<Rightarrow> string list \<Rightarrow> cmd list \<times> string list" where
  \<comment> \<open>\<open>parse_commands(module, warnings)\<close>, from the module's check mode and the list that
      \<open>transform_commands\<close> built; gives the commands and the warnings list after it.\<close>
  "parse_commands check_mode commands warnings =
     (if check_mode then drop_non_show commands commands warnings else (commands, warnings))"

subsection \<open>The wait-for loop of main\<close>

text \<open>
  A conditional is built from its source text and keeps it as \<open>raw\<close>; calling it on the
  responses is a function of that text and the responses, so the text stands for the
  object and the evaluator of the framework is the parameter \<open>ev\<close> (\<open>None\<close> when it
  raises). \<open>run_commands\<close> is the parameter \<open>run\<close>: it takes the commands and the device
  and gives the responses, or the failure that ends the module, and the device after it.
  The counter of attempts records how many times \<open>run\<close> was called.
\<close>

type_synonym ('r, 's) runner = "cmd list \<Rightarrow> 's \<Rightarrow> (failure + 'r list) \<times> 's"

fun check_conditionals ::
  "(string \<Rightarrow> 'r list \<Rightarrow> bool option) \<Rightarrow> string \<Rightarrow> 'r list \<Rightarrow> string list \<Rightarrow> string list
     \<Rightarrow> failure + string list" where
  \<comment> \<open>the loop over the copy \<open>list(conditionals)\<close>: the items still to visit, then the
      list \<open>conditionals\<close> being edited\<close>
  "check_conditionals ev match responses [] conditionals = Inr conditionals"
| "check_conditionals ev match responses (item # rest) conditionals =
     (case ev item responses of
        None \<Rightarrow> Inl (FailedConditionalError item)
      | Some True \<Rightarrow>
          if match = ''any'' then Inr []
          else check_conditionals ev match responses rest (remove1 item conditionals)
      | Some False \<Rightarrow> check_conditionals ev match responses rest conditionals)"

record ('r, 's) loop_end =
  pending :: "string list"
  last_responses :: "'r list option"
  attempts :: nat
  dev_state :: 's

function wait_loop ::
  "(string \<Rightarrow> 'r list \<Rightarrow> bool option) \<Rightarrow> ('r, 's) runner \<Rightarrow> cmd list \<Rightarrow> string \<Rightarrow> int \<Rightarrow> int
     \<Rightarrow> string list \<Rightarrow> 'r list option \<Rightarrow> nat \<Rightarrow> 's \<Rightarrow> (failure \<times> nat \<times> 's) + ('r, 's) loop_end" where
  "wait_loop ev run commands match interval retries conditionals responses n d =
     (if retries \<ge> 0 then
        (case run commands d of
           (Inl f, d') \<Rightarrow> Inl (f, Suc n, d')
         | (Inr resp, d') \<Rightarrow>
             (case check_conditionals ev match resp conditionals conditionals of
                Inl f \<Rightarrow> Inl (f, Suc n, d')
              | Inr conds \<Rightarrow>
                  if conds = [] then
                    Inr \<lparr> pending = conds, last_responses = Some resp, attempts = Suc n, dev_state = d' \<rparr>
                  else if interval < 0 then
                    Inl (Uncaught (ValueError ''sleep length must be non-negative''), Suc n, d')
                  else
                    wait_loop ev run commands match interval (retries - 1) conds (Some resp) (Suc n) d'))
      else
        Inr \<lparr> pending = conditionals, last_responses = responses, attempts = n, dev_state = d \<rparr>)"
  by pat_completeness auto
termination
  by (relation "measure (\<lambda>(ev, run, commands, match, interval, retries, rest). nat (retries + 1))") auto

declare wait_loop.simps [simp del]

record 'r exit_json =
  stdout :: "'r list"
  warnings_out :: "string list"

definition unsatisfied_msg :: string where
  "unsatisfied_msg = ''One or more conditional statements have not been satisfied''"

definition main ::
  "(string \<Rightarrow> 'r list \<Rightarrow> bool option) \<Rightarrow> ('r, 's) runner \<Rightarrow> bool \<Rightarrow> cmd list \<Rightarrow> string list \<Rightarrow> string
     \<Rightarrow> int \<Rightarrow> int \<Rightarrow> 's \<Rightarrow> (failure + 'r exit_json) \<times> nat \<times> 's" where
  \<comment> \<open>\<open>main()\<close> from the module's parameters: check mode, the transformed commands,
      \<open>wait_for\<close> as conditionals, \<open>match\<close>, \<open>retries\<close> and \<open>interval\<close>. The result is what
      the module exits with, the number of attempts made and the device after them.\<close>
  "main ev run check_mode commands0 wait_for match retries interval d =
     (case parse_commands check_mode commands0 [] of
        (commands, warnings) \<Rightarrow>
          (case wait_loop ev run commands match interval retries wait_for None 0 d of
             Inl (f, n, d') \<Rightarrow> (Inl f, n, d')
           | Inr e \<Rightarrow>
               if pending e \<noteq> [] then
                 (Inl (FailJson unsatisfied_msg (Some (pending e))), attempts e, dev_state e)
               else
                 (case last_responses e of
                    None \<Rightarrow> (Inl UnboundLocalError, attempts e, dev_state e)
                  | Some resp \<Rightarrow>
                      (Inr \<lparr> stdout = resp, warnings_out = warnings \<rparr>, attempts e, dev_state e))))"

definition replay :: "('r, 'r list list) runner" where
  \<comment> \<open>A runner stub for concrete runs: the device is the list of the batches of responses
      still to give, one per attempt; an exhausted list fails the module.\<close>
  "replay commands batches =
     (case batches of [] \<Rightarrow> (Inl (FailJson ''no response'' None), []) | b # bs \<Rightarrow> (Inr b, bs))"

definition contains_ev :: "string \<Rightarrow> string list \<Rightarrow> bool option" where
  \<comment> \<open>An evaluator stub for concrete runs: a conditional holds when its text occurs in
      the first response, and raises when there is no response.\<close>
  "contains_ev raw responses =
     (case responses of [] \<Rightarrow> None | r # rs \<Rightarrow> Some (str_contains raw r))"

section \<open>Vlan ranges (plugins/module_utils/network/aos/utils/utils.py)\<close>

definition isdigit :: "char \<Rightarrow> bool" where
  "isdigit c = (48 \<le> (of_char c :: nat) \<and> (of_char c :: nat) \<le> 57)"

definition digit :: "char \<Rightarrow> nat" where
  "digit c = of_char c - 48"

fun parse_digits :: "nat \<Rightarrow> string \<Rightarrow> nat option" where
  \<comment> \<open>the digits after a first one; an underscore may stand between two digits\<close>
  "parse_digits acc [] = Some acc"
| "parse_digits acc [c] = (if isdigit c then Some (10 * acc + digit c) else None)"
| "parse_digits acc (c # d # ds) =
     (if isdigit c then parse_digits (10 * acc + digit c) (d # ds)
      else if c = CHR ''_'' \<and> isdigit d then parse_digits (10 * acc + digit d) ds
      else None)"

definition parse_nat :: "string \<Rightarrow> nat option" where
  "parse_nat s = (case s of [] \<Rightarrow> None | c # cs \<Rightarrow> if isdigit c then parse_digits (digit c) cs else None)"

definition py_int :: "string \<Rightarrow> error + int" where
  \<comment> \<open>\<open>int(s)\<close> on a text: surrounding whitespace, a sign, decimal digits\<close>
  "py_int s =
     (let t = strip s;
          r = (case t of
                 [] \<Rightarrow> None
               | c # cs \<Rightarrow>
                   if c = CHR ''-'' then map_option (\<lambda>n. - int n) (parse_nat cs)
                   else if c = CHR ''+'' then map_option int (parse_nat cs)
                   else map_option int (parse_nat t))
      in case r of
           None \<Rightarrow> Inl (ValueError (''invalid literal for int() with base 10: '' @ quoted s))
         | Some i \<Rightarrow> Inr i)"

definition numerical_sort :: "(int list \<Rightarrow> int list) \<Rightarrow> int list \<Rightarrow> int list" where
  \<comment> \<open>\<open>numerical_sort\<close> on integers: the list is sorted, then turned into a set and back
      into a list. The order in which a set gives back its elements is the interpreter's,
      the parameter \<open>set_list\<close> (from the list the set is built from).\<close>
  "numerical_sort set_list string_int_list = set_list (sort string_int_list)"

fun vlan_parts :: "string list \<Rightarrow> int list \<Rightarrow> error + int list" where
  \<comment> \<open>the loop over the parts, with the result so far\<close>
  "vlan_parts [] result = Inr result"
| "vlan_parts (part # rest) result =
     (if part = ''none'' then Inr result
      else if str_contains ''-'' part then
        (case split CHR ''-'' part of
           [a, b] \<Rightarrow>
             (case py_int a of
                Inl e \<Rightarrow> Inl e
              | Inr a' \<Rightarrow>
                  (case py_int b of
                     Inl e \<Rightarrow> Inl e
                   | Inr b' \<Rightarrow> vlan_parts rest (result @ [a' .. b'])))
         | _ \<Rightarrow> Inl (ValueError ''too many values to unpack (expected 2)''))
      else
        (case py_int part of
           Inl e \<Rightarrow> Inl e
         | Inr a \<Rightarrow> vlan_parts rest (result @ [a])))"

datatype vlans_arg = VlanNone | VlanText string | VlanParts "string list"

definition vlan_range_to_list :: "(int list \<Rightarrow> int list) \<Rightarrow> vlans_arg \<Rightarrow> error + int list" where
  "vlan_range_to_list set_list vlans =
     (case vlans of
        VlanNone \<Rightarrow> Inr []
      | VlanText s \<Rightarrow>
          if s = [] then Inr []
          else (case vlan_parts (split CHR '','' s) [] of
                  Inl e \<Rightarrow> Inl e
                | Inr result \<Rightarrow> Inr (numerical_sort set_list result))
      | VlanParts ps \<Rightarrow>
          if ps = [] then Inr []
          else (case vlan_parts ps [] of
                  Inl e \<Rightarrow> Inl e
                | Inr result \<Rightarrow> Inr (numerical_sort set_list result)))"

fun table8_insert :: "nat \<Rightarrow> nat \<Rightarrow> int \<Rightarrow> nat \<Rightarrow> int option list \<Rightarrow> int option list" where
  \<comment> \<open>\<open>set_add_entry\<close> of CPython on a table of eight slots holding small integers (whose
      hash is the integer): fuel, perturbation, key, slot, table\<close>
  "table8_insert 0 perturb k i tab = tab"
| "table8_insert (Suc fuel) perturb k i tab =
     (case tab ! i of
        None \<Rightarrow> tab[i := Some k]
      | Some k' \<Rightarrow>
          if k' = k then tab
          else table8_insert fuel (perturb div 32) k ((i * 5 + 1 + perturb div 32) mod 8) tab)"

definition table8_order :: "int list \<Rightarrow> int list" where
  \<comment> \<open>\<open>list(set(xs))\<close> in CPython for at most four distinct integers from 0 to \<open>2^61 - 2\<close>:
      the table keeps its first size of eight slots, a key starts at slot \<open>key mod 8\<close>, and
      the list reads the slots in order.\<close>
  "table8_order xs =
     map the (filter (\<lambda>e. e \<noteq> None)
       (fold (\<lambda>k tab. table8_insert 64 (nat k) k (nat k mod 8) tab) xs (replicate 8 None)))"

section \<open>Properties\<close>

lemma startswith_self_append: "startswith (p @ s) p"
  by (simp add: startswith_def)

lemma str_contains_appendI: "str_contains sub s \<Longrightarrow> str_contains sub (pre @ s)"
  by (induction pre) auto

lemma str_contains_suffix: "str_contains sub (pre @ sub)"
proof -
  have "str_contains sub sub"
    by (cases sub) (simp_all add: startswith_def)
  then show ?thesis by (rule str_contains_appendI)
qed

subsection \<open>get_diff\<close>

lemma no_generate_diff: "\<not> supports_generate_diff get_device_operations"
  by (simp add: get_device_operations_def)

text \<open>
  C1 (as amended). \<open>get_diff\<close> refuses an absent candidate only when the device
  operations report \<open>supports_generate_diff\<close>, and this platform reports it false. So an
  absent candidate is never refused for being absent: whatever the other arguments, the
  result is not the error "candidate configuration is required to generate diff", and
  with a valid \<open>diff_match\<close> and \<open>diff_replace\<close> the call does not fail at all.
\<close>

theorem get_diff_absent_candidate:
  "\<not> supports_generate_diff get_device_operations
   \<and> get_diff nc None running dm ign path dr
       \<noteq> Inl (ValueError ''candidate configuration is required to generate diff'')
   \<and> (dm \<in> set (ov_diff_match get_option_values) \<and> dr \<in> set (ov_diff_replace get_option_values)
        \<longrightarrow> \<not> isl (get_diff nc None running dm ign path dr))"
  by (simp add: get_diff_def no_generate_diff quoted_def Let_def)

theorem get_diff_absent_candidate_witness:
  "\<not> isl (get_diff flat_netcfg None (Some ''vlan 1'') ''strict'' None None ''block'')"
  using get_diff_absent_candidate [of flat_netcfg "Some ''vlan 1''" "''strict''" None None "''block''"]
  by (simp add: get_option_values_def)

text \<open>
  C1 as stated fails: with no candidate, no running configuration and the default
  policies, \<open>get_diff\<close> returns a result (the dump of what the absent candidate loads
  as) instead of an error.
\<close>

theorem get_diff_absent_candidate_counterexample:
  "get_diff flat_netcfg None None ''line'' None None ''line'' = Inr ''None''"
  by code_simp



subsection \<open>Invalid option values\<close>

lemma run_commands_loop_append:
  "run_commands_loop tr loads rc (pre @ post) rs c =
     (case run_commands_loop tr loads rc pre rs c of
        (Inl e, c') \<Rightarrow> (Inl e, c')
      | (Inr rs', c') \<Rightarrow> run_commands_loop tr loads rc post rs' c')"
proof (induction pre arbitrary: rs c rc)
  case Nil
  show ?case by simp
next
  case (Cons x xs)
  show ?case
    by (simp add: Cons.IH split: sum.split prod.split error.split)
qed

lemma prepare_invalid:
  assumes "output m = Some outp" "outp \<noteq> []" "outp \<noteq> ''text''" "outp \<noteq> ''json''"
  shows "prepare (Mapping m)
           = Inl (ValueError (quoted ''output'' @ '' value '' @ outp
                              @ '' is invalid. Valid values are text,json''))"
  using assms
  by (simp add: prepare_def truthy_def get_command_with_output_def get_option_values_def Let_def)

text \<open>
  C5 (as amended). \<open>get_diff\<close>, which calls no transport, fails on a \<open>diff_match\<close>
  outside its four values, and on a \<open>diff_replace\<close> outside its three values, with a
  \<open>ValueError\<close> whose message lists the valid values. \<open>run_commands\<close> checks the
  \<open>output\<close> of a command when the loop reaches that command: if the commands before it
  went through, the call fails there with a \<open>ValueError\<close> listing the valid values, and
  in every case neither that command nor a later one is sent, so the requests that
  reached the transport are those of the commands before it. When the command is the
  first of the batch, no request reaches the transport.
\<close>

theorem invalid_option_fails:
  "(dm \<notin> set (ov_diff_match get_option_values) \<longrightarrow>
      get_diff nc (Some cand) running dm ign path dr
        = Inl (ValueError (quoted ''match'' @ '' value '' @ dm
                           @ '' in invalid, valid values are line, strict, exact, none'')))
   \<and> (dm \<in> set (ov_diff_match get_option_values) \<and> dr \<notin> set (ov_diff_replace get_option_values) \<longrightarrow>
      get_diff nc (Some cand) running dm ign path dr
        = Inl (ValueError (quoted ''replace'' @ '' value '' @ dr
                           @ '' in invalid, valid values are line, block, config'')))
   \<and> (output m = Some outp \<and> outp \<noteq> [] \<and> outp \<notin> set (ov_output get_option_values) \<longrightarrow>
        fst (run_commands_loop tr loads rc (pre @ Mapping m # post) rs c)
          = (case fst (run_commands_loop tr loads rc pre rs c) of
               Inl e \<Rightarrow> Inl e
             | Inr rs' \<Rightarrow> Inl (ValueError (quoted ''output'' @ '' value '' @ outp
                                           @ '' is invalid. Valid values are text,json'')))
        \<and> sent (snd (run_commands_loop tr loads rc (pre @ Mapping m # post) rs c))
          = sent (snd (run_commands_loop tr loads rc pre rs c)))
   \<and> (output m = Some outp \<and> outp \<noteq> [] \<and> outp \<notin> set (ov_output get_option_values) \<longrightarrow>
        Cliconf_run_commands tr loads (Some (Mapping m # post)) rc c
          = (Inl (ValueError (quoted ''output'' @ '' value '' @ outp
                              @ '' is invalid. Valid values are text,json'')), c))"
proof (intro conjI impI)
  assume "dm \<notin> set (ov_diff_match get_option_values)"
  then show "get_diff nc (Some cand) running dm ign path dr
        = Inl (ValueError (quoted ''match'' @ '' value '' @ dm
                           @ '' in invalid, valid values are line, strict, exact, none''))"
    by (simp add: get_diff_def get_option_values_def)
next
  assume "dm \<in> set (ov_diff_match get_option_values) \<and> dr \<notin> set (ov_diff_replace get_option_values)"
  then show "get_diff nc (Some cand) running dm ign path dr
        = Inl (ValueError (quoted ''replace'' @ '' value '' @ dr
                           @ '' in invalid, valid values are line, block, config''))"
    by (simp add: get_diff_def get_option_values_def)
next
  assume a: "output m = Some outp \<and> outp \<noteq> [] \<and> outp \<notin> set (ov_output get_option_values)"
  then have p: "prepare (Mapping m)
                  = Inl (ValueError (quoted ''output'' @ '' value '' @ outp
                                     @ '' is invalid. Valid values are text,json''))"
    by (intro prepare_invalid) (simp_all add: get_option_values_def)
  show "fst (run_commands_loop tr loads rc (pre @ Mapping m # post) rs c)
          = (case fst (run_commands_loop tr loads rc pre rs c) of
               Inl e \<Rightarrow> Inl e
             | Inr rs' \<Rightarrow> Inl (ValueError (quoted ''output'' @ '' value '' @ outp
                                           @ '' is invalid. Valid values are text,json'')))"
    by (simp add: run_commands_loop_append p split: prod.split sum.split)
  show "sent (snd (run_commands_loop tr loads rc (pre @ Mapping m # post) rs c))
          = sent (snd (run_commands_loop tr loads rc pre rs c))"
    by (simp add: run_commands_loop_append p split: prod.split sum.split)
next
  assume a: "output m = Some outp \<and> outp \<noteq> [] \<and> outp \<notin> set (ov_output get_option_values)"
  then have p: "prepare (Mapping m)
                  = Inl (ValueError (quoted ''output'' @ '' value '' @ outp
                                     @ '' is invalid. Valid values are text,json''))"
    by (intro prepare_invalid) (simp_all add: get_option_values_def)
  show "Cliconf_run_commands tr loads (Some (Mapping m # post)) rc c
          = (Inl (ValueError (quoted ''output'' @ '' value '' @ outp
                              @ '' is invalid. Valid values are text,json'')), c)"
    by (simp add: Cliconf_run_commands_def p)
qed

theorem invalid_option_fails_witness:
  "get_diff flat_netcfg (Some ''vlan 1'') None ''fuzzy'' None None ''line''
     = Inl (ValueError (quoted ''match'' @ '' value fuzzy in invalid, valid values are line, strict, exact, none''))
   \<and> get_diff flat_netcfg (Some ''vlan 1'') None ''line'' None None ''all''
     = Inl (ValueError (quoted ''replace'' @ '' value all in invalid, valid values are line, block, config''))
   \<and> sent (snd (run_commands_loop scripted no_json True
                   ([Bare ''show vlan''] @ Mapping ((bare ''show chassis'')\<lparr> output := Some ''xml'' \<rparr>) # [])
                   [] (fresh [Inr ''vlan 1''])))
     = [bare ''show vlan'']
   \<and> Cliconf_run_commands scripted no_json
        (Some (Mapping ((bare ''show chassis'')\<lparr> output := Some ''xml'' \<rparr>) # [Bare ''show vlan''])) True
        (fresh [Inr ''vlan 1''])
     = (Inl (ValueError (quoted ''output'' @ '' value xml is invalid. Valid values are text,json'')),
        fresh [Inr ''vlan 1''])"
proof -
  have xml: "output ((bare ''show chassis'')\<lparr> output := Some ''xml'' \<rparr>) = Some ''xml''
             \<and> ''xml'' \<noteq> [] \<and> ''xml'' \<notin> set (ov_output get_option_values)"
    by (simp add: get_option_values_def)
  have 1: "get_diff flat_netcfg (Some ''vlan 1'') None ''fuzzy'' None None ''line''
     = Inl (ValueError (quoted ''match'' @ '' value fuzzy in invalid, valid values are line, strict, exact, none''))"
    using invalid_option_fails [where dm = "''fuzzy''" and nc = flat_netcfg and cand = "''vlan 1''"
        and running = None and ign = None and path = None and dr = "''line''",
        THEN conjunct1]
    by (simp add: get_option_values_def)
  have 2: "get_diff flat_netcfg (Some ''vlan 1'') None ''line'' None None ''all''
     = Inl (ValueError (quoted ''replace'' @ '' value all in invalid, valid values are line, block, config''))"
    using invalid_option_fails [where dm = "''line''" and nc = flat_netcfg and cand = "''vlan 1''"
        and running = None and ign = None and path = None and dr = "''all''",
        THEN conjunct2, THEN conjunct1]
    by (simp add: get_option_values_def)
  have 3: "sent (snd (run_commands_loop scripted no_json True
                   ([Bare ''show vlan''] @ Mapping ((bare ''show chassis'')\<lparr> output := Some ''xml'' \<rparr>) # [])
                   [] (fresh [Inr ''vlan 1''])))
     = sent (snd (run_commands_loop scripted no_json True [Bare ''show vlan''] [] (fresh [Inr ''vlan 1''])))"
    using xml invalid_option_fails [where m = "(bare ''show chassis'')\<lparr> output := Some ''xml'' \<rparr>"
        and outp = "''xml''" and tr = scripted and loads = no_json and rc = True
        and pre = "[Bare ''show vlan'']" and post = "[]" and rs = "[]" and c = "fresh [Inr ''vlan 1'']",
        THEN conjunct2, THEN conjunct2, THEN conjunct1]
    by blast
  have sent3: "sent (snd (run_commands_loop scripted no_json True [Bare ''show vlan''] [] (fresh [Inr ''vlan 1''])))
     = [bare ''show vlan'']"
    by code_simp
  have 4: "Cliconf_run_commands scripted no_json
        (Some (Mapping ((bare ''show chassis'')\<lparr> output := Some ''xml'' \<rparr>) # [Bare ''show vlan''])) True
        (fresh [Inr ''vlan 1''])
     = (Inl (ValueError (quoted ''output'' @ '' value xml is invalid. Valid values are text,json'')),
        fresh [Inr ''vlan 1''])"
    using xml invalid_option_fails [where m = "(bare ''show chassis'')\<lparr> output := Some ''xml'' \<rparr>"
        and outp = "''xml''" and tr = scripted and loads = no_json and rc = True
        and post = "[Bare ''show vlan'']" and c = "fresh [Inr ''vlan 1'']",
        THEN conjunct2, THEN conjunct2, THEN conjunct2]
    by simp
  show ?thesis using 1 2 3 sent3 4 by simp
qed

text \<open>
  C5 as stated fails for \<open>run_commands\<close>: in a batch of two commands whose second has the
  output \<open>xml\<close>, the first command has reached the transport when the call fails.
\<close>

theorem invalid_option_counterexample:
  "Cliconf_run_commands scripted no_json
      (Some [Bare ''show vlan'', Mapping ((bare ''show chassis'')\<lparr> output := Some ''xml'' \<rparr>)]) True
      (fresh [Inr ''vlan 1'', Inr ''chassis 1''])
   = (Inl (ValueError (quoted ''output'' @ '' value xml is invalid. Valid values are text,json'')),
      \<lparr> device = [Inr ''chassis 1''], sent = [bare ''show vlan''] \<rparr>)"
  by code_simp

subsection \<open>The command sent for an output format\<close>

text \<open>
  C6 (as amended). When \<open>output\<close> is \<open>json\<close> and the command does not end with
  \<open>| json\<close>, the text \<open> | json\<close> is appended, and after it \<open> version v\<close> when the version
  is not \<open>latest\<close>. A command whose \<open>output\<close> is \<open>text\<close> is returned unchanged when the
  version is \<open>latest\<close> or the command does not contain \<open>| json\<close>; a \<open>text\<close> command that
  contains \<open>| json\<close> gets \<open> version v\<close> appended when the version is not \<open>latest\<close>.
\<close>

theorem get_command_with_output_cases:
  "(outp = ''json'' \<and> \<not> endswith c ''| json'' \<and> ver = Some ''latest''
      \<longrightarrow> get_command_with_output c outp ver = Inr (c @ '' | json''))
 \<and> (outp = ''json'' \<and> \<not> endswith c ''| json'' \<and> ver \<noteq> Some ''latest''
      \<longrightarrow> get_command_with_output c outp ver = Inr (c @ '' | json'' @ '' version '' @ str_of ver))
 \<and> (outp = ''text'' \<and> (ver = Some ''latest'' \<or> \<not> str_contains ''| json'' c)
      \<longrightarrow> get_command_with_output c outp ver = Inr c)
 \<and> (outp = ''text'' \<and> ver \<noteq> Some ''latest'' \<and> str_contains ''| json'' c
      \<longrightarrow> get_command_with_output c outp ver = Inr (c @ '' version '' @ str_of ver))"
proof -
  have js: "str_contains ''| json'' (c @ '' | json'')"
    using str_contains_suffix [of "''| json''" "c @ '' ''"] by simp
  show ?thesis
    using js by (simp add: get_command_with_output_def get_option_values_def)
qed

theorem get_command_with_output_cases_witness:
  "get_command_with_output ''show vlan'' ''json'' (Some ''latest'') = Inr ''show vlan | json''
   \<and> get_command_with_output ''show vlan'' ''json'' (Some ''1'') = Inr ''show vlan | json version 1''
   \<and> get_command_with_output ''show vlan'' ''text'' (Some ''1'') = Inr ''show vlan''
   \<and> get_command_with_output ''show vlan | json'' ''text'' (Some ''1'') = Inr ''show vlan | json version 1''"
proof -
  have n: "\<not> endswith ''show vlan'' ''| json''" by (simp add: endswith_def)
  have 1: "get_command_with_output ''show vlan'' ''json'' (Some ''latest'') = Inr ''show vlan | json''"
    using n get_command_with_output_cases [of "''json''" "''show vlan''" "Some ''latest''", THEN conjunct1]
    by simp
  have 2: "get_command_with_output ''show vlan'' ''json'' (Some ''1'') = Inr ''show vlan | json version 1''"
    using n get_command_with_output_cases [of "''json''" "''show vlan''" "Some ''1''", THEN conjunct2, THEN conjunct1]
    by (simp add: str_of_def)
  have 3: "get_command_with_output ''show vlan'' ''text'' (Some ''1'') = Inr ''show vlan''"
    using get_command_with_output_cases [of "''text''" "''show vlan''" "Some ''1''", THEN conjunct2, THEN conjunct2, THEN conjunct1]
    by (simp add: startswith_def)
  have 4: "get_command_with_output ''show vlan | json'' ''text'' (Some ''1'') = Inr ''show vlan | json version 1''"
    using get_command_with_output_cases [of "''text''" "''show vlan | json''" "Some ''1''", THEN conjunct2, THEN conjunct2, THEN conjunct2]
    by (simp add: startswith_def str_of_def)
  show ?thesis using 1 2 3 4 by simp
qed

text \<open>
  C6 as stated fails: a command with output \<open>text\<close> that itself asks for JSON is not
  sent unchanged under version 1.
\<close>

theorem text_output_counterexample:
  "get_command_with_output ''show vlan | json'' ''text'' (Some ''1'') \<noteq> Inr ''show vlan | json''"
  by code_simp

subsection \<open>Connection failures in run_commands\<close>

text \<open>
  C8. When the transport fails on the request of a command with an
  \<open>AnsibleConnectionFailure\<close>, \<open>run_commands\<close> with \<open>check_rc\<close> true ends with that
  failure; with \<open>check_rc\<close> false it does not fail there: the text of the error takes the
  place of the reply of that command, is decoded like a reply and appended to the
  responses, and the loop goes on with the next command.
\<close>

theorem connection_failure_check_rc:
  assumes "prepare x = Inr req" and "tr req (device c) = (Inl err, d')"
  shows "run_commands_loop tr loads True (x # xs) rs c
           = (Inl (AnsibleConnectionFailure err), \<lparr> device = d', sent = sent c @ [req] \<rparr>)
         \<and> run_commands_loop tr loads False (x # xs) rs c
           = run_commands_loop tr loads False xs (rs @ [decode loads err])
               \<lparr> device = d', sent = sent c @ [req] \<rparr>
         \<and> Cliconf_run_commands tr loads (Some [x]) False c
           = (Inr [decode loads err], \<lparr> device = d', sent = sent c @ [req] \<rparr>)"
  using assms by (simp add: send_command_def Cliconf_run_commands_def)

theorem connection_failure_check_rc_witness:
  "Cliconf_run_commands scripted no_json (Some [Bare ''show vlan'']) True (fresh [Inl ''timeout''])
     = (Inl (AnsibleConnectionFailure ''timeout''), \<lparr> device = [], sent = [bare ''show vlan''] \<rparr>)
   \<and> Cliconf_run_commands scripted no_json (Some [Bare ''show vlan'']) False (fresh [Inl ''timeout''])
     = (Inr [Text ''timeout''], \<lparr> device = [], sent = [bare ''show vlan''] \<rparr>)"
proof -
  have p: "prepare (Bare ''show vlan'') = Inr (bare ''show vlan'')"
    by (simp add: prepare_def bare_def truthy_def)
  have t: "scripted (bare ''show vlan'') (device (fresh [Inl ''timeout''])) = (Inl ''timeout'', [])"
    by (simp add: scripted_def fresh_def)
  have d: "decode no_json ''timeout'' = Text ''timeout''"
    by code_simp
  show ?thesis
    using p t d
      connection_failure_check_rc [where x = "Bare ''show vlan''" and req = "bare ''show vlan''"
        and tr = scripted and c = "fresh [Inl ''timeout'']" and err = "''timeout''" and d' = "[]"
        and loads = no_json and xs = "[]" and rs = "[]"]
    by (simp add: Cliconf_run_commands_def fresh_def)
qed

subsection \<open>get_config\<close>

text \<open>
  C9 (as amended). \<open>get_config\<close> of the plugin with source \<open>startup\<close>, no flags and format
  \<open>text\<close> sends exactly the command \<open>cat working/vcsetup.cfg\<close> and returns the text of
  the transport unchanged; a source other than \<open>running\<close> and \<open>startup\<close> (with a valid
  format) fails with a \<open>ValueError\<close> and nothing is sent. The module-side \<open>get_config\<close>,
  which always asks for the running configuration, returns the text without its leading
  and trailing whitespace.
\<close>

theorem get_config_startup:
  "(tr (bare ''cat working/vcsetup.cfg'') (device c) = (Inr out, d') \<longrightarrow>
      Cliconf_get_config tr ''startup'' NoFlags ''text'' c
        = (Inr out, \<lparr> device = d', sent = sent c @ [bare ''cat working/vcsetup.cfg''] \<rparr>))
   \<and> (fmt \<in> set (ov_format get_option_values) \<and> source \<noteq> ''running'' \<and> source \<noteq> ''startup'' \<longrightarrow>
      Cliconf_get_config tr source flags fmt c
        = (Inl (ValueError (''fetching configuration from '' @ source @ '' is not supported'')), c))
   \<and> (device_configs st ''show configuration snapshot'' = None
        \<and> tr (bare ''show configuration snapshot'') (device (connection st)) = (Inr out, d') \<longrightarrow>
      fst (Cli_get_config tr None st) = Inr (strip out))"
proof -
  have r: "strip (''show configuration snapshot '' @ join '' '' []) = ''show configuration snapshot''"
    by code_simp
  have r2: "strip (''show configuration snapshot'' @ '' '' @ join '' '' (to_list (FlagList [])))
              = ''show configuration snapshot''"
    by code_simp
  have cli: "device_configs st ''show configuration snapshot'' = None
        \<and> tr (bare ''show configuration snapshot'') (device (connection st)) = (Inr out, d') \<longrightarrow>
      fst (Cli_get_config tr None st) = Inr (strip out)"
    using r r2
    by (simp add: Cli_get_config_def Cliconf_get_config_def lookup_def get_option_values_def
        send_command_def Let_def)
  have s: "strip (''cat working/vcsetup.cfg'' @ '' '' @ join '' '' (to_list NoFlags)) = ''cat working/vcsetup.cfg''"
    by code_simp
  show ?thesis
    using s cli by (simp add: Cliconf_get_config_def lookup_def get_option_values_def send_command_def)
qed

theorem get_config_startup_witness:
  "Cliconf_get_config scripted ''startup'' NoFlags ''text'' (fresh [Inr ''vlan 1''])
     = (Inr ''vlan 1'', \<lparr> device = [], sent = [bare ''cat working/vcsetup.cfg''] \<rparr>)
   \<and> Cliconf_get_config scripted ''candidate'' NoFlags ''text'' (fresh [Inr ''vlan 1''])
     = (Inl (ValueError ''fetching configuration from candidate is not supported''), fresh [Inr ''vlan 1''])"
proof -
  have t: "scripted (bare ''cat working/vcsetup.cfg'') (device (fresh [Inr ''vlan 1''])) = (Inr ''vlan 1'', [])"
    by (simp add: scripted_def fresh_def)
  have 1: "Cliconf_get_config scripted ''startup'' NoFlags ''text'' (fresh [Inr ''vlan 1''])
     = (Inr ''vlan 1'', \<lparr> device = [], sent = [bare ''cat working/vcsetup.cfg''] \<rparr>)"
    using t get_config_startup [where tr = scripted and c = "fresh [Inr ''vlan 1'']" and out = "''vlan 1''" and d' = "[]", THEN conjunct1]
    by (simp add: fresh_def)
  have 2: "Cliconf_get_config scripted ''candidate'' NoFlags ''text'' (fresh [Inr ''vlan 1''])
     = (Inl (ValueError ''fetching configuration from candidate is not supported''), fresh [Inr ''vlan 1''])"
    using get_config_startup [where fmt = "''text''" and source = "''candidate''" and tr = scripted and flags = NoFlags and c = "fresh [Inr ''vlan 1'']", THEN conjunct2, THEN conjunct1]
    by (simp add: get_option_values_def)
  show ?thesis using 1 2 by simp
qed

text \<open>
  C9 as stated fails: the text of the startup configuration comes back with its trailing
  whitespace.
\<close>

theorem get_config_startup_counterexample:
  "fst (Cliconf_get_config scripted ''startup'' NoFlags ''text'' (fresh [Inr ''vlan 1 \<newline>'']))
     = Inr ''vlan 1 \<newline>''
   \<and> rstrip ''vlan 1 \<newline>'' = ''vlan 1''"
  by code_simp

subsection \<open>Check mode\<close>

lemma drop_non_show_filter:
  "drop_non_show xs (filter (\<lambda>i. startswith (command i) ''show'') pre @ xs) ws
     = (filter (\<lambda>i. startswith (command i) ''show'') (pre @ xs),
        ws @ map (\<lambda>i. check_mode_warning (command i))
               (filter (\<lambda>i. \<not> startswith (command i) ''show'') xs))"
proof (induction xs arbitrary: pre ws)
  case Nil
  show ?case by simp
next
  case (Cons x xs)
  show ?case
  proof (cases "startswith (command x) ''show''")
    case True
    then show ?thesis
      using Cons.IH [of "pre @ [x]" ws] by simp
  next
    case False
    have "x \<notin> set (filter (\<lambda>i. startswith (command i) ''show'') pre)"
      using False by simp
    then have "remove1 x (filter (\<lambda>i. startswith (command i) ''show'') pre @ x # xs)
                 = filter (\<lambda>i. startswith (command i) ''show'') pre @ xs"
      by (auto simp add: remove1_append)
    then show ?thesis
      using False Cons.IH [of pre "ws @ [check_mode_warning (command x)]"] by simp
  qed
qed


lemma parse_commands_True:
  "parse_commands True commands ws
     = (filter (\<lambda>i. startswith (command i) ''show'') commands,
        ws @ map (\<lambda>i. check_mode_warning (command i))
                     (filter (\<lambda>i. \<not> startswith (command i) ''show'') commands))"
  using drop_non_show_filter [of commands "[]" ws] by (simp add: parse_commands_def)

lemma parse_commands_False: "parse_commands False commands ws = (commands, ws)"
  by (simp add: parse_commands_def)

text \<open>
  C7. In check mode \<open>parse_commands\<close> keeps exactly the commands that begin with \<open>show\<close>,
  in their order, and appends one warning for each command that does not; \<open>main\<close> hands
  the kept commands to the loop, so a run in check mode is the run without check mode on
  the kept commands, with those warnings in the result.
\<close>

theorem parse_commands_check_mode:
  "parse_commands True commands warnings
     = (filter (\<lambda>i. startswith (command i) ''show'') commands,
        warnings @ map (\<lambda>i. check_mode_warning (command i))
                     (filter (\<lambda>i. \<not> startswith (command i) ''show'') commands))
   \<and> main ev run True commands wait_for match retries interval d
     = (case main ev run False (filter (\<lambda>i. startswith (command i) ''show'') commands)
               wait_for match retries interval d of
          (Inl f, n, d') \<Rightarrow> (Inl f, n, d')
        | (Inr ex, n, d') \<Rightarrow>
            (Inr (ex\<lparr> warnings_out := map (\<lambda>i. check_mode_warning (command i))
                       (filter (\<lambda>i. \<not> startswith (command i) ''show'') commands) \<rparr>), n, d'))"
proof
  show "parse_commands True commands warnings
     = (filter (\<lambda>i. startswith (command i) ''show'') commands,
        warnings @ map (\<lambda>i. check_mode_warning (command i))
                     (filter (\<lambda>i. \<not> startswith (command i) ''show'') commands))"
    by (rule parse_commands_True)
next
  let ?cs = "filter (\<lambda>i. startswith (command i) ''show'') commands"
  show "main ev run True commands wait_for match retries interval d
     = (case main ev run False ?cs wait_for match retries interval d of
          (Inl f, n, d') \<Rightarrow> (Inl f, n, d')
        | (Inr ex, n, d') \<Rightarrow>
            (Inr (ex\<lparr> warnings_out := map (\<lambda>i. check_mode_warning (command i))
                       (filter (\<lambda>i. \<not> startswith (command i) ''show'') commands) \<rparr>), n, d'))"
  proof (cases "wait_loop ev run ?cs match interval retries wait_for None 0 d")
    case (Inl a)
    then show ?thesis
      by (cases a) (simp add: main_def parse_commands_True parse_commands_False)
  next
    case (Inr e)
    then show ?thesis
      by (cases "last_responses e")
         (simp_all add: main_def parse_commands_True parse_commands_False)
  qed
qed

theorem parse_commands_check_mode_witness:
  "parse_commands True [bare ''show vlan'', bare ''vlan 10'', bare ''show chassis'', bare ''vlan 10''] []
     = ([bare ''show vlan'', bare ''show chassis''],
        [check_mode_warning ''vlan 10'', check_mode_warning ''vlan 10''])"
  using parse_commands_check_mode [of "[bare ''show vlan'', bare ''vlan 10'', bare ''show chassis'', bare ''vlan 10'']" "[]",
      THEN conjunct1]
  by (simp add: startswith_def bare_def)

subsection \<open>The wait-for loop\<close>

lemma check_conditionals_all:
  assumes "match \<noteq> ''any''" and "\<forall>c\<in>set xs. ev c r \<noteq> None"
  shows "check_conditionals ev match r xs (filter (\<lambda>c. ev c r \<noteq> Some True) pre @ xs)
           = Inr (filter (\<lambda>c. ev c r \<noteq> Some True) (pre @ xs))"
  using assms(2)
proof (induction xs arbitrary: pre)
  case Nil
  show ?case by simp
next
  case (Cons x xs)
  then obtain b where b: "ev x r = Some b" by auto
  show ?case
  proof (cases b)
    case True
    have "x \<notin> set (filter (\<lambda>c. ev c r \<noteq> Some True) pre)"
      using b True by simp
    then have "remove1 x (filter (\<lambda>c. ev c r \<noteq> Some True) pre @ x # xs)
                 = filter (\<lambda>c. ev c r \<noteq> Some True) pre @ xs"
      by (auto simp add: remove1_append)
    then show ?thesis
      using b True assms(1) Cons.IH [of pre] Cons.prems by simp
  next
    case False
    then show ?thesis
      using b Cons.IH [of "pre @ [x]"] Cons.prems by simp
  qed
qed

lemma check_conditionals_none_true:
  "\<forall>c\<in>set xs. ev c r = Some False \<Longrightarrow> check_conditionals ev match r xs conds = Inr conds"
  by (induction xs) simp_all

lemma check_conditionals_any:
  assumes "\<forall>x\<in>set pre. ev x r = Some False" and "ev c r = Some True"
  shows "check_conditionals ev ''any'' r (pre @ c # post) conds = Inr []"
  using assms by (induction pre) simp_all

lemma wait_loop_done:
  assumes "0 \<le> retries" and "run cmds d = (Inr r, d')"
    and "check_conditionals ev match r conds conds = Inr []"
  shows "wait_loop ev run cmds match interval retries conds resp n d
           = Inr \<lparr> pending = [], last_responses = Some r, attempts = Suc n, dev_state = d' \<rparr>"
  using assms by (simp add: wait_loop.simps [of ev run cmds match interval retries conds resp n d])

lemma wait_loop_retry:
  assumes "0 \<le> retries" and "run cmds d = (Inr r, d')"
    and "check_conditionals ev match r conds conds = Inr conds'" and "conds' \<noteq> []"
    and "0 \<le> interval"
  shows "wait_loop ev run cmds match interval retries conds resp n d
           = wait_loop ev run cmds match interval (retries - 1) conds' (Some r) (Suc n) d'"
  using assms by (simp add: wait_loop.simps [of ev run cmds match interval retries conds resp n d])


lemma two_attempts:
  assumes "1 \<le> retries" and "0 \<le> interval" and "match \<noteq> ''any''"
    and "run cmds d0 = (Inr r1, d1)" and "run cmds d1 = (Inr r2, d2)"
    and "ev c1 r1 = Some True" and "ev c2 r1 = Some False" and "ev c2 r2 = Some True"
  shows "main ev run False cmds [c1, c2] match retries interval d0
           = (Inr \<lparr> stdout = r2, warnings_out = [] \<rparr>, 2, d2)"
proof -
  have ne: "c1 \<noteq> c2" using assms(6,7) by auto
  have k1: "check_conditionals ev match r1 [c1, c2] [c1, c2] = Inr [c2]"
    using assms(3,6,7) ne by simp
  have k2: "check_conditionals ev match r2 [c2] [c2] = Inr []"
    using assms(3,8) by simp
  have "wait_loop ev run cmds match interval retries [c1, c2] None 0 d0
          = wait_loop ev run cmds match interval (retries - 1) [c2] (Some r1) (Suc 0) d1"
    using assms(1,2,4) k1 by (intro wait_loop_retry) simp_all
  also have "\<dots> = Inr \<lparr> pending = [], last_responses = Some r2, attempts = Suc (Suc 0), dev_state = d2 \<rparr>"
    using assms(1,5) k2 by (intro wait_loop_done) simp_all
  finally show ?thesis
    by (simp add: main_def parse_commands_def)
qed





text \<open>
  C3. One pass over the conditionals with a match other than \<open>any\<close> (so with \<open>all\<close>)
  removes from the pending list exactly the conditionals that are true on the responses
  of that attempt, each on its own; the pending list goes to the next attempt, so a
  conditional that was removed is not looked at again. With \<open>any\<close>, the first conditional
  that is true empties the pending list. An attempt that leaves the pending list empty
  ends the loop with the responses of that attempt. So with two retries, match \<open>all\<close>, a
  sleep interval that is not negative and two conditionals, the first true on the first
  attempt and the second true only on the second, \<open>main\<close> succeeds after exactly two
  attempts with the responses of the second, whatever the first conditional is then.
\<close>

theorem wait_for_matching:
  "(match \<noteq> ''any'' \<and> (\<forall>c\<in>set conds. ev c r \<noteq> None) \<longrightarrow>
      check_conditionals ev match r conds conds = Inr (filter (\<lambda>c. ev c r \<noteq> Some True) conds))
   \<and> ((\<forall>x\<in>set pre. ev x r = Some False) \<and> ev c r = Some True \<longrightarrow>
      check_conditionals ev ''any'' r (pre @ c # post) (pre @ c # post) = Inr [])
   \<and> (0 \<le> retries \<and> run cmds d = (Inr r, d')
        \<and> check_conditionals ev match r conds conds = Inr [] \<longrightarrow>
      wait_loop ev run cmds match interval retries conds resp n d
        = Inr \<lparr> pending = [], last_responses = Some r, attempts = Suc n, dev_state = d' \<rparr>)
   \<and> (0 \<le> interval \<and> run cmds d0 = (Inr r1, d1) \<and> run cmds d1 = (Inr r2, d2)
        \<and> ev c1 r1 = Some True \<and> ev c2 r1 = Some False \<and> ev c2 r2 = Some True \<longrightarrow>
      main ev run False cmds [c1, c2] ''all'' 2 interval d0
        = (Inr \<lparr> stdout = r2, warnings_out = [] \<rparr>, 2, d2))"
proof (intro conjI impI)
  assume "match \<noteq> ''any'' \<and> (\<forall>c\<in>set conds. ev c r \<noteq> None)"
  then show "check_conditionals ev match r conds conds = Inr (filter (\<lambda>c. ev c r \<noteq> Some True) conds)"
    using check_conditionals_all [of match conds ev r "[]"] by simp
next
  assume "(\<forall>x\<in>set pre. ev x r = Some False) \<and> ev c r = Some True"
  then show "check_conditionals ev ''any'' r (pre @ c # post) (pre @ c # post) = Inr []"
    by (simp add: check_conditionals_any)
next
  assume "0 \<le> retries \<and> run cmds d = (Inr r, d') \<and> check_conditionals ev match r conds conds = Inr []"
  then show "wait_loop ev run cmds match interval retries conds resp n d
        = Inr \<lparr> pending = [], last_responses = Some r, attempts = Suc n, dev_state = d' \<rparr>"
    by (simp add: wait_loop_done)
next
  assume "0 \<le> interval \<and> run cmds d0 = (Inr r1, d1) \<and> run cmds d1 = (Inr r2, d2)
        \<and> ev c1 r1 = Some True \<and> ev c2 r1 = Some False \<and> ev c2 r2 = Some True"
  then show "main ev run False cmds [c1, c2] ''all'' 2 interval d0
        = (Inr \<lparr> stdout = r2, warnings_out = [] \<rparr>, 2, d2)"
    using two_attempts [where retries = 2 and interval = interval and match = "''all''" and run = run
        and cmds = cmds and ?d0.0 = d0 and ?r1.0 = r1 and ?d1.0 = d1 and ?r2.0 = r2 and ?d2.0 = d2
        and ev = ev and ?c1.0 = c1 and ?c2.0 = c2]
    by simp
qed

theorem wait_for_matching_witness:
  "check_conditionals contains_ev ''all'' [''up''] [''up'', ''ok''] [''up'', ''ok''] = Inr [''ok'']
   \<and> check_conditionals contains_ev ''any'' [''up''] [''ok'', ''up'', ''on''] [''ok'', ''up'', ''on''] = Inr []
   \<and> wait_loop contains_ev replay [bare ''show x''] ''all'' 0 2 [''up''] None 0 [[''up''], [''ok'']]
        = Inr \<lparr> pending = [], last_responses = Some [''up''], attempts = 1, dev_state = [[''ok'']] \<rparr>
   \<and> main contains_ev replay False [bare ''show x''] [''up'', ''ok''] ''all'' 2 0 [[''up''], [''ok''], [''zz'']]
        = (Inr \<lparr> stdout = [''ok''], warnings_out = [] \<rparr>, 2, [[''zz'']])"
proof -
  have e1: "contains_ev ''up'' [''up''] = Some True" by code_simp
  have e2: "contains_ev ''ok'' [''up''] = Some False" by code_simp
  have e3: "contains_ev ''ok'' [''ok''] = Some True" by code_simp
  have 1: "check_conditionals contains_ev ''all'' [''up''] [''up'', ''ok''] [''up'', ''ok''] = Inr [''ok'']"
    using e1 e2
      wait_for_matching [where match = "''all''" and conds = "[''up'', ''ok'']" and ev = contains_ev
        and r = "[''up'']", THEN conjunct1]
    by simp
  have 2: "check_conditionals contains_ev ''any'' [''up''] [''ok'', ''up'', ''on''] [''ok'', ''up'', ''on''] = Inr []"
    using e1 e2
      wait_for_matching [where pre = "[''ok'']" and c = "''up''" and post = "[''on'']" and ev = contains_ev
        and r = "[''up'']", THEN conjunct2, THEN conjunct1]
    by simp
  have k: "check_conditionals contains_ev ''all'' [''up''] [''up''] [''up''] = Inr []"
    using e1 by simp
  have 3: "wait_loop contains_ev replay [bare ''show x''] ''all'' 0 2 [''up''] None 0 [[''up''], [''ok'']]
        = Inr \<lparr> pending = [], last_responses = Some [''up''], attempts = 1, dev_state = [[''ok'']] \<rparr>"
    using k
      wait_for_matching [where retries = 2 and run = replay and cmds = "[bare ''show x'']"
        and d = "[[''up''], [''ok'']]" and r = "[''up'']" and d' = "[[''ok'']]" and ev = contains_ev
        and match = "''all''" and conds = "[''up'']" and interval = 0 and resp = None and n = 0,
        THEN conjunct2, THEN conjunct2, THEN conjunct1]
    by (simp add: replay_def)
  have 4: "main contains_ev replay False [bare ''show x''] [''up'', ''ok''] ''all'' 2 0 [[''up''], [''ok''], [''zz'']]
        = (Inr \<lparr> stdout = [''ok''], warnings_out = [] \<rparr>, 2, [[''zz'']])"
    using e1 e2 e3
      wait_for_matching [where interval = 0 and run = replay and cmds = "[bare ''show x'']"
        and ?d0.0 = "[[''up''], [''ok''], [''zz'']]" and ?r1.0 = "[''up'']" and ?d1.0 = "[[''ok''], [''zz'']]"
        and ?r2.0 = "[''ok'']" and ?d2.0 = "[[''zz'']]" and ev = contains_ev
        and ?c1.0 = "''up''" and ?c2.0 = "''ok''",
        THEN conjunct2, THEN conjunct2, THEN conjunct2]
    by (simp add: replay_def)
  show ?thesis using 1 2 3 4 by simp
qed



subsection \<open>Vlan ranges\<close>

text \<open>
  C10 does not hold of the code: \<open>numerical_sort\<close> sorts the list and then passes it
  through a set, whose order of iteration is the interpreter's. On the text \<open>1,8\<close> the set
  of CPython gives 8 before 1.
\<close>

theorem vlan_range_unsorted:
  "vlan_range_to_list table8_order (VlanText ''1,8'') = Inr [8, 1]"
  by code_simp

end
